theory Spec2Isabelle
  imports Main
begin

section \<open>The landscape photo sheet generator (items\_app.py)\<close>

text \<open>
  The program lays uploaded photos out on landscape A4 pages through the fpdf drawing
  library and offers the result for download from a Streamlit page. The model has three
  layers, each following the code it stands for:
  \<^item> the world outside the process: temporary files, the image decoder and the JPEG
    writer (PIL);
  \<^item> the fpdf document object: a cursor, margins, the page-break limit and the pages,
    each page being the list of things drawn on it;
  \<^item> the program itself: the \<open>PDF\<close> subclass (\<open>header\<close>, \<open>footer\<close>),
    \<open>generate_pdf\<close> and the button handler of the page.

  All lengths are millimetres. The library computes the page size and its default margins
  from points (A4 landscape is 297.0001 by 210.0016, the default bottom margin 20.0025);
  they are rounded to whole millimetres here. Every coordinate the program passes is a
  whole number and the only comparisons made are of 20, 110 and 200 against the
  page-break limit of about 190, so the rounding changes no outcome. Fonts affect no
  coordinate and are left out.

  A text (the label typed into the page, the text of a cell) is a Python string: a list
  of Unicode code points. The messages of exceptions and the fixed texts of the page's
  boxes are kept as 8-bit strings.
\<close>

subsection \<open>Images and temporary files\<close>

datatype mode = Mode_L | Mode_LA | Mode_P | Mode_RGB | Mode_RGBA | Mode_CMYK

record pil_image =
  im_mode :: mode
  im_width :: int
  im_height :: int

definition has_alpha :: "mode \<Rightarrow> bool" where
  "has_alpha m = (m = Mode_LA \<or> m = Mode_RGBA)"

text \<open>\<open>Image.convert(mode)\<close>: the same picture in the requested mode.\<close>

definition convert :: "mode \<Rightarrow> pil_image \<Rightarrow> pil_image" where
  "convert m im = im\<lparr>im_mode := m\<rparr>"

text \<open>What a saved JPEG file holds: the mode and size of the picture that was saved and
  the bytes the encoder produced for it.\<close>

record jpeg =
  jp_mode :: mode
  jp_width :: int
  jp_height :: int
  jp_data :: "nat list"

text \<open>A temporary file name: the unique part chosen by \<open>tempfile\<close> (a number here) and
  the suffix asked for.\<close>

type_synonym path = "nat \<times> string"

text \<open>\<open>unicode\<close> gives the code points of a literal of the program; \<open>latin1\<close>
  holds of the texts that the \<open>latin-1\<close> codec can encode.\<close>

definition unicode :: "string \<Rightarrow> nat list" where
  "unicode s = map of_char s"

definition latin1 :: "nat list \<Rightarrow> bool" where
  "latin1 t = list_all (\<lambda>c. c < 256) t"

text \<open>The drawing operations that end up on a page, with the coordinates they are drawn
  at. \<open>Cell\<close> is a text cell (position, size, text, border, alignment), \<open>Rect\<close> a
  rectangle outline, \<open>Img\<close> an embedded picture (position, size, the file it was read
  from, the declared type and the file's content).\<close>

datatype op =
    Cell (ox: int) (oy: int) (ow: int) (oh: int) (ctext: "nat list") (border: int) (align: string)
  | Rect (ox: int) (oy: int) (ow: int) (oh: int)
  | Img (ox: int) (oy: int) (ow: int) (oh: int) (src: path) (itype: string) (embedded: jpeg)

fun text_of :: "op \<Rightarrow> nat list" where
  "text_of (Cell x y w h t b a) = t"
| "text_of (Rect x y w h) = []"
| "text_of (Img x y w h n t j) = []"

datatype content = Blank | JpegFile jpeg | PdfFile "op list list"

record world =
  fresh :: nat
  files :: "(path \<times> content) list"

definition write_file :: "path \<Rightarrow> content \<Rightarrow> (path \<times> content) list \<Rightarrow> (path \<times> content) list" where
  "write_file p c fs = (p, c) # filter (\<lambda>e. fst e \<noteq> p) fs"

text \<open>\<open>tempfile.NamedTemporaryFile(delete=False, suffix=s)\<close>: a new empty file under a
  name not used before. With \<open>delete=False\<close> leaving the \<open>with\<close> block only closes the
  file, so the model has nothing to do there.\<close>

definition named_temporary_file :: "string \<Rightarrow> world \<Rightarrow> path \<times> world" where
  "named_temporary_file suffix wld =
     (let name = (fresh wld, suffix)
      in (name, wld\<lparr>fresh := Suc (fresh wld), files := write_file name Blank (files wld)\<rparr>))"

text \<open>
  \<open>pil_image.save(name)\<close> writes the picture as a JPEG file or raises. \<open>sav\<close> gives
  the message of the exception the JPEG writer raises for a picture, if it raises (it
  does for a picture wider or higher than 65500 pixels); \<open>enc\<close> stands for the
  compressor, whose output bytes are not fixed by the picture. The file exists already
  when \<open>save\<close> is called, so a failed \<open>save\<close> leaves it in place.
\<close>

definition jpeg_of :: "(pil_image \<Rightarrow> nat list) \<Rightarrow> pil_image \<Rightarrow> jpeg" where
  "jpeg_of enc im =
     \<lparr>jp_mode = im_mode im, jp_width = im_width im, jp_height = im_height im, jp_data = enc im\<rparr>"

definition save :: "(pil_image \<Rightarrow> string option) \<Rightarrow> (pil_image \<Rightarrow> nat list) \<Rightarrow> pil_image \<Rightarrow>
    path \<Rightarrow> world \<Rightarrow> string + world" where
  "save sav enc im name wld =
     (case sav im of
        Some e \<Rightarrow> Inl e
      | None \<Rightarrow> Inr (wld\<lparr>files := write_file name (JpegFile (jpeg_of enc im)) (files wld)\<rparr>))"

definition os_remove :: "path \<Rightarrow> world \<Rightarrow> string + world" where
  "os_remove name wld =
     (if name \<in> fst ` set (files wld)
      then Inr (wld\<lparr>files := filter (\<lambda>e. fst e \<noteq> name) (files wld)\<rparr>)
      else Inl ''[Errno 2] No such file or directory'')"

subsection \<open>The fpdf document object\<close>

text \<open>
  The library is not part of the repository; the model follows its documented behaviour
  as far as it decides where things are drawn. The fields are those of the library
  object. The current page is the last element of \<open>pages\<close>.
  \<^item> \<open>add_page\<close> ends the current page with its footer, starts a new page, calls
    \<open>header\<close> and puts the cursor at the left and top margins.
  \<^item> \<open>cell\<close> draws at the cursor and, called without \<open>ln\<close>, moves the cursor right
    by the cell's width. Its documentation: "If automatic page breaking is enabled and
    the cell goes beyond the limit, a page break is done before outputting." The limit
    is the page height minus the bottom margin; the abscissa is kept across the break;
    inside a footer no break is made.
  \<^item> Automatic page breaking is on by default, with a bottom margin of 2 cm.
    \<open>set_margins\<close> sets the left, top and right margins only, and the program never
    calls \<open>set_auto_page_break\<close>.
  \<^item> \<open>ln()\<close> returns to the left margin and goes down by the height of the last cell.
  \<^item> \<open>rect\<close>, and \<open>image\<close> when given both coordinates, draw where they are told,
    never break the page and do not move the cursor. A negative argument of \<open>set_y\<close>
    counts from the bottom edge.
\<close>

record fpdf =
  page_w :: int
  page_h :: int
  l_margin :: int
  t_margin :: int
  r_margin :: int
  b_margin :: int
  auto_page_break :: bool
  in_footer :: bool
  pos_x :: int
  pos_y :: int
  lasth :: int
  pages :: "op list list"

definition page_break_trigger :: "fpdf \<Rightarrow> int" where
  "page_break_trigger pdf = page_h pdf - b_margin pdf"

definition page_no :: "fpdf \<Rightarrow> nat" where
  "page_no pdf = length (pages pdf)"

text \<open>Append a drawing operation to the current page.\<close>

definition draw :: "op \<Rightarrow> fpdf \<Rightarrow> fpdf" where
  "draw d pdf =
     (case pages pdf of
        [] \<Rightarrow> pdf
      | _ # _ \<Rightarrow> pdf\<lparr>pages := butlast (pages pdf) @ [last (pages pdf) @ [d]]\<rparr>)"

definition set_margins :: "int \<Rightarrow> int \<Rightarrow> int \<Rightarrow> fpdf \<Rightarrow> fpdf" where
  "set_margins l t r pdf = pdf\<lparr>l_margin := l, t_margin := t, r_margin := r\<rparr>"

definition set_x :: "int \<Rightarrow> fpdf \<Rightarrow> fpdf" where
  "set_x x pdf = pdf\<lparr>pos_x := (if 0 \<le> x then x else page_w pdf + x)\<rparr>"

definition set_y :: "int \<Rightarrow> fpdf \<Rightarrow> fpdf" where
  "set_y y pdf = pdf\<lparr>pos_x := l_margin pdf, pos_y := (if 0 \<le> y then y else page_h pdf + y)\<rparr>"

definition set_xy :: "int \<Rightarrow> int \<Rightarrow> fpdf \<Rightarrow> fpdf" where
  "set_xy x y pdf = set_x x (set_y y pdf)"

definition ln :: "fpdf \<Rightarrow> fpdf" where
  "ln pdf = pdf\<lparr>pos_x := l_margin pdf, pos_y := pos_y pdf + lasth pdf\<rparr>"

definition rect :: "int \<Rightarrow> int \<Rightarrow> int \<Rightarrow> int \<Rightarrow> fpdf \<Rightarrow> fpdf" where
  "rect x y w h pdf = draw (Rect x y w h) pdf"

text \<open>The drawing part of \<open>cell\<close>: a width of 0 means up to the right margin.\<close>

definition put_cell :: "int \<Rightarrow> int \<Rightarrow> nat list \<Rightarrow> int \<Rightarrow> string \<Rightarrow> fpdf \<Rightarrow> fpdf" where
  "put_cell w h t b a pdf =
     (let w' = (if w = 0 then page_w pdf - r_margin pdf - pos_x pdf else w)
      in (draw (Cell (pos_x pdf) (pos_y pdf) w' h t b a) pdf)
           \<lparr>pos_x := pos_x pdf + w', lasth := h\<rparr>)"

text \<open>\<open>str(n)\<close> of a natural number, for \<open>f'Page {n}'\<close>: its decimal digits.\<close>

definition digit :: "nat \<Rightarrow> char" where
  "digit n = ''0123456789'' ! n"

function str :: "nat \<Rightarrow> string" where
  "str n = (if n < 10 then [digit n] else str (n div 10) @ [digit (n mod 10)])"
  by pat_completeness auto
termination
  by (relation "measure id") auto

declare str.simps [simp del]

text \<open>
  \<open>PDF.header\<close> only selects a font. \<open>PDF.footer\<close> goes to 15 mm above the bottom
  edge and prints the page number in a cell that spans the line; it runs with
  \<open>in_footer\<close> set, where \<open>cell\<close> makes no page break, so only its drawing part runs.
\<close>

definition header :: "fpdf \<Rightarrow> fpdf" where
  "header pdf = pdf"

definition footer :: "fpdf \<Rightarrow> fpdf" where
  "footer pdf = put_cell 0 10 (unicode (''Page '' @ str (page_no pdf))) 0 ''C'' (set_y (- 15) pdf)"

definition add_page :: "fpdf \<Rightarrow> fpdf" where
  "add_page pdf =
     (let pdf1 = (if pages pdf \<noteq> [] then (footer (pdf\<lparr>in_footer := True\<rparr>))\<lparr>in_footer := False\<rparr>
                  else pdf);
          pdf2 = pdf1\<lparr>pages := pages pdf1 @ [[]], pos_x := l_margin pdf1, pos_y := t_margin pdf1\<rparr>
      in header pdf2)"

definition cell :: "int \<Rightarrow> int \<Rightarrow> nat list \<Rightarrow> int \<Rightarrow> string \<Rightarrow> fpdf \<Rightarrow> fpdf" where
  "cell w h t b a pdf =
     (if page_break_trigger pdf < pos_y pdf + h \<and> \<not> in_footer pdf \<and> auto_page_break pdf
      then put_cell w h t b a ((add_page pdf)\<lparr>pos_x := pos_x pdf\<rparr>)
      else put_cell w h t b a pdf)"

text \<open>\<open>image(name, x, y, w, h, type)\<close> reads the file and draws it stretched to the given
  width and height.\<close>

definition image_pdf :: "path \<Rightarrow> int \<Rightarrow> int \<Rightarrow> int \<Rightarrow> int \<Rightarrow> string \<Rightarrow> world \<Rightarrow> fpdf \<Rightarrow> string + fpdf" where
  "image_pdf name x y w h t wld pdf =
     (case map_of (files wld) name of
        Some (JpegFile j) \<Rightarrow> Inr (draw (Img x y w h name t j) pdf)
      | _ \<Rightarrow> Inl ''FPDF error: Missing or incorrect image file'')"

text \<open>\<open>PDF(orientation='L', unit='mm', format='A4')\<close>.\<close>

definition PDF :: fpdf where
  "PDF = \<lparr>page_w = 297, page_h = 210, l_margin = 10, t_margin = 10, r_margin = 10,
          b_margin = 20, auto_page_break = True, in_footer = False,
          pos_x = 0, pos_y = 0, lasth = 0, pages = []\<rparr>"

text \<open>
  \<open>output(name)\<close> first closes the document (a document without pages gets one, and
  the last page gets its footer), then encodes the pages with the \<open>latin-1\<close> codec
  and writes them to the file. Encoding raises \<open>UnicodeEncodeError\<close> when a text on a
  page has a character outside Latin-1; nothing is written then. The message of that
  exception names the character and its position in the page's stream, which the model
  does not compute, so exceptions are a type of their own: one with a known message, or
  this one.
\<close>

datatype exn = Exception string | UnicodeEncodeError

definition close_doc :: "fpdf \<Rightarrow> fpdf" where
  "close_doc pdf =
     (let pdf1 = (if pages pdf = [] then add_page pdf else pdf)
      in (footer (pdf1\<lparr>in_footer := True\<rparr>))\<lparr>in_footer := False\<rparr>)"

definition output_pdf :: "path \<Rightarrow> fpdf \<Rightarrow> world \<Rightarrow> exn + world" where
  "output_pdf name pdf wld =
     (let doc = pages (close_doc pdf)
      in if list_all (list_all (\<lambda>d. latin1 (text_of d))) doc
         then Inr (wld\<lparr>files := write_file name (PdfFile doc) (files wld)\<rparr>)
         else Inl UnicodeEncodeError)"

subsection \<open>generate\_pdf\<close>

definition margin :: int where "margin = 10"
definition col_width_img :: int where "col_width_img = 80"
definition col_width_other :: int where "col_width_other = 190"
definition row_height :: int where "row_height = 90"

text \<open>
  The body of \<open>for img_file in batch\<close>. \<open>opn\<close> stands for
  \<open>Image.open(img_file)\<close> together with the decoding that \<open>convert\<close> triggers: it
  yields the picture or the message of the exception raised. An exception inside the
  \<open>with\<close> block, from opening, converting or saving, leaves the function at once: the
  statements after it, \<open>os.remove\<close> among them, do not run.
\<close>

definition row :: "('u \<Rightarrow> string + pil_image) \<Rightarrow> (pil_image \<Rightarrow> string option) \<Rightarrow>
    (pil_image \<Rightarrow> nat list) \<Rightarrow> 'u \<Rightarrow> fpdf \<times> world \<Rightarrow> (string + fpdf) \<times> world" where
  "row opn sav enc img_file s =
     (let pdf = fst s; wld = snd s;
          x_start = pos_x pdf;
          y_start = pos_y pdf;
          pdf1 = rect x_start y_start col_width_img row_height pdf;
          (tmp, w1) = named_temporary_file ''.jpg'' wld
      in case opn img_file of
           Inl e \<Rightarrow> (Inl e, w1)
         | Inr im \<Rightarrow>
             (let pil_image = convert Mode_RGB im
              in case save sav enc pil_image tmp w1 of
                   Inl e \<Rightarrow> (Inl e, w1)
                 | Inr w2 \<Rightarrow>
                     (case image_pdf tmp (x_start + 2) (y_start + 2) (col_width_img - 4)
                             (row_height - 4) ''JPG'' w2 pdf1 of
                        Inl e \<Rightarrow> (Inl e, w2)
                      | Inr pdf2 \<Rightarrow>
                          (case os_remove tmp w2 of
                             Inl e \<Rightarrow> (Inl e, w2)
                           | Inr w3 \<Rightarrow>
                               (let pdf3 = set_xy (x_start + col_width_img) y_start pdf2;
                                    pdf4 = cell col_width_other row_height [] 1 '''' pdf3;
                                    pdf5 = set_xy x_start (y_start + row_height) pdf4
                                in (Inr pdf5, w3))))))"

fun rows :: "('u \<Rightarrow> string + pil_image) \<Rightarrow> (pil_image \<Rightarrow> string option) \<Rightarrow>
    (pil_image \<Rightarrow> nat list) \<Rightarrow> 'u list \<Rightarrow> fpdf \<times> world \<Rightarrow> (string + fpdf) \<times> world" where
  "rows opn sav enc [] s = (Inr (fst s), snd s)"
| "rows opn sav enc (img_file # batch) s =
     (case row opn sav enc img_file s of
        (Inl e, wld) \<Rightarrow> (Inl e, wld)
      | (Inr pdf, wld) \<Rightarrow> rows opn sav enc batch (pdf, wld))"

text \<open>The table header drawn at the top of each page the loop starts.\<close>

definition table_headers :: "nat list \<Rightarrow> fpdf \<Rightarrow> fpdf" where
  "table_headers header_text pdf =
     ln (cell col_width_other 10 (unicode ''Notes / Data'') 1 ''L''
          (cell col_width_img 10 header_text 1 ''C'' pdf))"

text \<open>\<open>for i in range(0, len(images), 2)\<close> with \<open>batch = images[i:i+2]\<close>.\<close>

function pages_loop :: "('u \<Rightarrow> string + pil_image) \<Rightarrow> (pil_image \<Rightarrow> string option) \<Rightarrow>
    (pil_image \<Rightarrow> nat list) \<Rightarrow> nat list \<Rightarrow> 'u list \<Rightarrow> nat \<Rightarrow> fpdf \<times> world \<Rightarrow>
    (string + fpdf) \<times> world" where
  "pages_loop opn sav enc header_text images i s =
     (if i < length images
      then (case rows opn sav enc (take 2 (drop i images))
                   (table_headers header_text (add_page (fst s)), snd s) of
              (Inl e, wld) \<Rightarrow> (Inl e, wld)
            | (Inr pdf, wld) \<Rightarrow> pages_loop opn sav enc header_text images (i + 2) (pdf, wld))
      else (Inr (fst s), snd s))"
  by pat_completeness auto
termination
  by (relation "measure (\<lambda>(opn, sav, enc, header_text, images, i, s). length images - i)") auto

declare pages_loop.simps [simp del]

definition generate_pdf :: "('u \<Rightarrow> string + pil_image) \<Rightarrow> (pil_image \<Rightarrow> string option) \<Rightarrow>
    (pil_image \<Rightarrow> nat list) \<Rightarrow> 'u list \<Rightarrow> nat list \<Rightarrow> world \<Rightarrow> (string + fpdf) \<times> world" where
  "generate_pdf opn sav enc images header_text wld =
     pages_loop opn sav enc header_text images 0 (set_margins margin margin margin PDF, wld)"

subsection \<open>The page: upload, button, download\<close>

text \<open>What the page shows below its fixed title, text input and uploader. The label of
  the download button is given without its pictograph. \<open>Error t e\<close> is the box of
  \<open>st.error\<close> showing the text \<open>t\<close> followed by the message of the exception
  \<open>e\<close>.\<close>

datatype widget =
    Success string
  | Info string
  | Error string exn
  | Download_button (label: string) (data: content) (file_name: string) (mime: string)

text \<open>
  One run of the script with the uploaded files, whether the button was pressed, and the
  text of the header input, which is any Python string. The \<open>try\<close> block turns any
  exception, of \<open>generate_pdf\<close> or of \<open>output\<close>, into one error box.
\<close>

definition ui :: "('u \<Rightarrow> string + pil_image) \<Rightarrow> (pil_image \<Rightarrow> string option) \<Rightarrow>
    (pil_image \<Rightarrow> nat list) \<Rightarrow> 'u list \<Rightarrow> bool \<Rightarrow> nat list \<Rightarrow> world \<Rightarrow> widget list \<times> world" where
  "ui opn sav enc uploaded_files pressed col_header wld =
     (if uploaded_files \<noteq> []
      then (let shown = [Success (''Uploaded '' @ str (length uploaded_files) @ '' images.'')]
            in if pressed
               then (case generate_pdf opn sav enc uploaded_files col_header wld of
                       (Inl e, w1) \<Rightarrow> (shown @ [Error ''An error occurred: '' (Exception e)], w1)
                     | (Inr pdf, w1) \<Rightarrow>
                         (let (tmp_pdf, w2) = named_temporary_file ''.pdf'' w1
                          in case output_pdf tmp_pdf pdf w2 of
                               Inl e \<Rightarrow> (shown @ [Error ''An error occurred: '' e], w2)
                             | Inr w3 \<Rightarrow>
                                 (case map_of (files w3) tmp_pdf of
                                    None \<Rightarrow>
                                      (shown @ [Error ''An error occurred: ''
                                         (Exception ''[Errno 2] No such file or directory'')], w3)
                                  | Some pdf_bytes \<Rightarrow>
                                      (shown @ [Download_button ''Download PDF'' pdf_bytes
                                         ''landscape_photos.pdf'' ''application/pdf''], w3))))
               else (shown, wld))
      else ([Info ''Please upload images to start.''], wld))"

subsection \<open>The page layout in closed form\<close>

text \<open>
  What follows is not taken from the code: it describes the result of the code, and the
  lemmas below prove that the code produces exactly this.

  \<open>st\<close> is the document object as \<open>generate_pdf\<close> configures it, with the cursor,
  the last cell height and the pages left open.
\<close>

definition st :: "int \<Rightarrow> int \<Rightarrow> int \<Rightarrow> op list list \<Rightarrow> fpdf" where
  "st x y l ps = \<lparr>page_w = 297, page_h = 210, l_margin = 10, t_margin = 10, r_margin = 10,
          b_margin = 20, auto_page_break = True, in_footer = False,
          pos_x = x, pos_y = y, lasth = l, pages = ps\<rparr>"

text \<open>The operations of one table page: the header row, the border and picture of an
  image row starting at height \<open>y\<close>, the empty data cell of a row, and the footer of
  page \<open>n\<close>.\<close>

definition head_ops :: "nat list \<Rightarrow> op list" where
  "head_ops header_text =
     [Cell 10 10 80 10 header_text 1 ''C'', Cell 90 10 190 10 (unicode ''Notes / Data'') 1 ''L'']"

definition img_ops :: "int \<Rightarrow> path \<times> jpeg \<Rightarrow> op list" where
  "img_ops y f = [Rect 10 y 80 90, Img 12 (y + 2) 76 86 (fst f) ''JPG'' (snd f)]"

definition data_op :: "int \<Rightarrow> op" where
  "data_op y = Cell 90 y 190 90 [] 1 ''''"

definition foot_op :: "nat \<Rightarrow> op" where
  "foot_op n = Cell 10 195 277 10 (unicode (''Page '' @ str n)) 0 ''C''"

text \<open>Staging one upload: the converted picture that gets saved, or the message of the
  exception from opening, converting or saving it.\<close>

definition stage :: "('u \<Rightarrow> string + pil_image) \<Rightarrow> (pil_image \<Rightarrow> string option) \<Rightarrow> 'u \<Rightarrow>
    string + pil_image" where
  "stage opn sav u =
     (case opn u of
        Inl e \<Rightarrow> Inl e
      | Inr im \<Rightarrow> (case sav (convert Mode_RGB im) of
                    Some e \<Rightarrow> Inl e
                  | None \<Rightarrow> Inr (convert Mode_RGB im)))"

text \<open>The files staged for the pictures, in input order: the temporary name and the
  JPEG written there. Names count up from the first free one.\<close>

fun staged :: "('u \<Rightarrow> string + pil_image) \<Rightarrow> (pil_image \<Rightarrow> string option) \<Rightarrow>
    (pil_image \<Rightarrow> nat list) \<Rightarrow> nat \<Rightarrow> 'u list \<Rightarrow> (path \<times> jpeg) list" where
  "staged opn sav enc f [] = []"
| "staged opn sav enc f (u # us) =
     (case stage opn sav u of
        Inl e \<Rightarrow> staged opn sav enc (Suc f) us
      | Inr p \<Rightarrow> ((f, ''.jpg''), jpeg_of enc p) # staged opn sav enc (Suc f) us)"

text \<open>
  The pages produced for a list of staged pictures when \<open>n\<close> pages exist already. A
  batch of two fills one page down to 200 mm; the data cell of its second row does not
  fit above the page-break limit and is drawn alone on a page of its own. The last page
  is still open (it has no footer yet).
\<close>

definition full_page :: "nat list \<Rightarrow> path \<times> jpeg \<Rightarrow> path \<times> jpeg \<Rightarrow> op list" where
  "full_page header_text a b =
     head_ops header_text @ img_ops 20 a @ [data_op 20] @ img_ops 110 b"

fun layout :: "nat list \<Rightarrow> nat \<Rightarrow> (path \<times> jpeg) list \<Rightarrow> op list list" where
  "layout header_text n [] = []"
| "layout header_text n [a] = [head_ops header_text @ img_ops 20 a @ [data_op 20]]"
| "layout header_text n [a, b] =
     [full_page header_text a b @ [foot_op (n + 1)], [data_op 10]]"
| "layout header_text n (a # b # c # cs) =
     [full_page header_text a b @ [foot_op (n + 1)], [data_op 10, foot_op (n + 2)]]
       @ layout header_text (n + 2) (c # cs)"

text \<open>\<open>seal\<close> closes the last page with its footer; \<open>after\<close> gives the pages once
  the loop has run over the staged pictures, starting from the pages \<open>ps\<close>;
  \<open>after_row\<close> is the effect of one successful row on the temporary files.\<close>

definition seal :: "op list list \<Rightarrow> op list list" where
  "seal ps = (if ps = [] then [] else butlast ps @ [last ps @ [foot_op (length ps)]])"

definition after :: "nat list \<Rightarrow> op list list \<Rightarrow> (path \<times> jpeg) list \<Rightarrow> op list list" where
  "after header_text ps zs = (if zs = [] then ps else seal ps @ layout header_text (length ps) zs)"

definition after_row :: "world \<Rightarrow> world" where
  "after_row w = w\<lparr>fresh := Suc (fresh w), files := filter (\<lambda>e. fst e \<noteq> (fresh w, ''.jpg'')) (files w)\<rparr>"

subsection \<open>Vocabulary of the properties\<close>

text \<open>The header row of a page: the cells of header height (10 mm) on the first line
  of the page (at the top margin).\<close>

definition header_row :: "op list \<Rightarrow> op list" where
  "header_row p = filter (\<lambda>d. is_Cell d \<and> oy d = 10 \<and> oh d = 10) p"

text \<open>The image rows of a page: every picture paired with the operation drawn just
  before it (the border of its cell).\<close>

fun image_rows :: "op list \<Rightarrow> (op \<times> op) list" where
  "image_rows (d # e # ds) = (if is_Img e then (d, e) # image_rows ds else image_rows (e # ds))"
| "image_rows ds = []"


text \<open>The geometry of a document: for every page, the kind and the box of every
  operation drawn on it, without texts, file names and picture contents.\<close>

datatype kind = Cell_kind | Rect_kind | Img_kind

fun geom :: "op \<Rightarrow> kind \<times> int \<times> int \<times> int \<times> int" where
  "geom (Cell x y w h t b a) = (Cell_kind, x, y, w, h)"
| "geom (Rect x y w h) = (Rect_kind, x, y, w, h)"
| "geom (Img x y w h n t j) = (Img_kind, x, y, w, h)"

definition geometry :: "fpdf \<Rightarrow> (kind \<times> int \<times> int \<times> int \<times> int) list list" where
  "geometry pdf = map (map geom) (pages pdf)"

text \<open>Sample inputs: uploads are numbered, upload 0 is a file that PIL cannot read, any
  other upload \<open>u\<close> is a PNG with an alpha channel, 640 \<open>u\<close> pixels wide, so upload 200
  decodes but is too wide for a JPEG. The message of the sample JPEG writer is a
  stand-in.\<close>

definition photo :: "nat \<Rightarrow> pil_image" where
  "photo u = \<lparr>im_mode = Mode_RGBA, im_width = 640 * int u, im_height = 480\<rparr>"

definition sample_open :: "nat \<Rightarrow> string + pil_image" where
  "sample_open u = (if u = 0 then Inl ''cannot identify image file'' else Inr (photo u))"

definition sample_save :: "pil_image \<Rightarrow> string option" where
  "sample_save im =
     (if 65500 < im_width im \<or> 65500 < im_height im
      then Some ''encoder error when writing image file'' else None)"

definition sample_enc :: "pil_image \<Rightarrow> nat list" where
  "sample_enc im = [nat (im_width im mod 256), nat (im_height im mod 256)]"

definition other_enc :: "pil_image \<Rightarrow> nat list" where
  "other_enc im = [255, 216, nat (im_height im mod 256)]"

definition empty_world :: world where
  "empty_world = \<lparr>fresh = 0, files = []\<rparr>"

section \<open>The code produces the closed form\<close>

lemma set_margins_PDF: "set_margins margin margin margin PDF = st 0 0 0 []"
  by (simp add: set_margins_def margin_def PDF_def st_def)

lemma draw_snoc: "draw d (st x y l (ps @ [q])) = st x y l (ps @ [q @ [d]])"
  by (cases ps) (simp_all add: draw_def st_def)

lemma footer_snoc:
  "(footer ((st x y l (ps @ [q]))\<lparr>in_footer := True\<rparr>))\<lparr>in_footer := False\<rparr>
     = st 287 195 10 (ps @ [q @ [foot_op (Suc (length ps))]])"
  by (cases ps) (simp_all add: footer_def put_cell_def set_y_def draw_def st_def foot_op_def page_no_def)

lemma add_page_empty: "add_page (st x y l []) = st 10 10 l [[]]"
  by (simp add: add_page_def header_def st_def)

lemma add_page_snoc:
  "add_page (st x y l (ps @ [q])) = st 10 10 10 (ps @ [q @ [foot_op (Suc (length ps))], []])"
proof -
  have "pages (st x y l (ps @ [q])) \<noteq> []" by (simp add: st_def)
  then show ?thesis
    by (simp add: add_page_def header_def footer_snoc Let_def) (simp add: st_def)
qed

lemma cell_fits:
  "w \<noteq> 0 \<Longrightarrow> y + h \<le> 190 \<Longrightarrow>
   cell w h t b a (st x y l (ps @ [q])) = st (x + w) y h (ps @ [q @ [Cell x y w h t b a]])"
  by (cases ps) (simp_all add: cell_def put_cell_def page_break_trigger_def draw_def st_def)

lemma put_cell_st:
  "w \<noteq> 0 \<Longrightarrow>
   put_cell w h t b a (st x y l (ps @ [q])) = st (x + w) y h (ps @ [q @ [Cell x y w h t b a]])"
  by (cases ps) (simp_all add: put_cell_def draw_def st_def)

lemma cell_breaks:
  assumes w: "w \<noteq> 0" and h: "190 < y + h"
  shows "cell w h t b a (st x y l (ps @ [q]))
     = st (x + w) 10 h (ps @ [q @ [foot_op (Suc (length ps))], [Cell x 10 w h t b a]])"
proof -
  let ?q = "q @ [foot_op (Suc (length ps))]"
  have brk: "page_break_trigger (st x y l (ps @ [q])) < pos_y (st x y l (ps @ [q])) + h
      \<and> \<not> in_footer (st x y l (ps @ [q])) \<and> auto_page_break (st x y l (ps @ [q]))"
    using h by (simp add: page_break_trigger_def st_def)
  have px: "pos_x (st x y l (ps @ [q])) = x" by (simp add: st_def)
  have upd: "(st 10 10 10 (ps @ [?q, []]))\<lparr>pos_x := x\<rparr> = st x 10 10 (ps @ [?q, []])"
    by (simp add: st_def)
  have put: "put_cell w h t b a (st x 10 10 (ps @ [?q, []]))
      = st (x + w) 10 h (ps @ [?q, [Cell x 10 w h t b a]])"
    using put_cell_st [OF w, of h t b a x 10 10 "ps @ [?q]" "[]"] by simp
  show ?thesis
    unfolding cell_def using brk by (simp add: add_page_snoc px upd put)
qed

lemma ln_st: "ln (st x y l ps) = st 10 (y + l) l ps"
  by (simp add: ln_def st_def)

lemma set_xy_st: "0 \<le> x' \<Longrightarrow> 0 \<le> y' \<Longrightarrow> set_xy x' y' (st x y l ps) = st x' y' l ps"
  by (simp add: set_xy_def set_x_def set_y_def st_def)

lemma rect_st: "rect x' y' w h (st x y l (ps @ [q])) = st x y l (ps @ [q @ [Rect x' y' w h]])"
  by (simp add: rect_def draw_snoc)

lemma table_headers_st:
  "table_headers header_text (st 10 10 l (ps @ [[]])) = st 10 20 10 (ps @ [head_ops header_text])"
  by (simp add: table_headers_def col_width_img_def col_width_other_def cell_fits ln_st head_ops_def)

lemma seal_snoc: "seal (ps @ [q]) = ps @ [q @ [foot_op (Suc (length ps))]]"
  by (simp add: seal_def)

lemma length_seal: "length (seal ps) = length ps"
  by (cases ps rule: rev_cases) (simp_all add: seal_def)

lemma start_page:
  "table_headers header_text (add_page (st x y l ps)) = st 10 20 10 (seal ps @ [head_ops header_text])"
proof (cases ps rule: rev_cases)
  case Nil
  then show ?thesis
    using table_headers_st [of header_text l "[]"] by (simp add: add_page_empty seal_def)
next
  case (snoc ps' q)
  then show ?thesis
    using table_headers_st [of header_text 10 "ps' @ [q @ [foot_op (Suc (length ps'))]]"]
    by (simp add: add_page_snoc seal_snoc)
qed

lemma stage_Inr:
  assumes "stage opn sav u = Inr p"
  shows "\<exists>im. opn u = Inr im \<and> p = convert Mode_RGB im \<and> sav p = None"
  using assms by (auto simp add: stage_def split: sum.splits option.splits)

lemma row_world:
  assumes "named_temporary_file ''.jpg'' w = (tmp, w1)" and "sav p = None"
  shows "tmp = (fresh w, ''.jpg'')"
    and "\<exists>w2. save sav enc p tmp w1 = Inr w2
           \<and> map_of (files w2) tmp = Some (JpegFile (jpeg_of enc p))
           \<and> os_remove tmp w2 = Inr (after_row w)"
  using assms
  by (auto simp add: named_temporary_file_def save_def os_remove_def write_file_def after_row_def Let_def)

lemma row_fits:
  assumes "stage opn sav u = Inr p" and "0 \<le> y" and "y + 90 \<le> 190"
  shows "row opn sav enc u (st 10 y l (ps @ [q]), w)
     = (Inr (st 10 (y + 90) 90
          (ps @ [q @ img_ops y ((fresh w, ''.jpg''), jpeg_of enc p) @ [data_op y]])),
        after_row w)"
proof -
  from stage_Inr [OF assms(1)] obtain im where
    im: "opn u = Inr im" "p = convert Mode_RGB im" and sv: "sav p = None" by blast
  obtain tmp w1 where t: "named_temporary_file ''.jpg'' w = (tmp, w1)"
    by (cases "named_temporary_file ''.jpg'' w")
  from row_world(1) [where sav = sav and p = p, OF t sv]
    row_world(2) [where sav = sav and p = p and enc = enc, OF t sv]
  obtain w2 where
    w: "tmp = (fresh w, ''.jpg'')" "save sav enc p tmp w1 = Inr w2"
       "map_of (files w2) tmp = Some (JpegFile (jpeg_of enc p))"
       "os_remove tmp w2 = Inr (after_row w)" by blast
  have px: "pos_x (st 10 y l (ps @ [q])) = 10" "pos_y (st 10 y l (ps @ [q])) = y"
    by (simp_all add: st_def)
  show ?thesis
    unfolding row_def Let_def
    using assms(2,3) w im(1) im(2) [symmetric]
    by (simp add: t px rect_st image_pdf_def draw_snoc set_xy_st cell_fits
         col_width_img_def col_width_other_def row_height_def img_ops_def data_op_def)
qed

lemma row_breaks:
  assumes "stage opn sav u = Inr p" and "0 \<le> y" and "190 < y + 90"
  shows "row opn sav enc u (st 10 y l (ps @ [q]), w)
     = (Inr (st 10 (y + 90) 90
          (ps @ [q @ img_ops y ((fresh w, ''.jpg''), jpeg_of enc p)
                   @ [foot_op (Suc (length ps))], [data_op 10]])),
        after_row w)"
proof -
  from stage_Inr [OF assms(1)] obtain im where
    im: "opn u = Inr im" "p = convert Mode_RGB im" and sv: "sav p = None" by blast
  obtain tmp w1 where t: "named_temporary_file ''.jpg'' w = (tmp, w1)"
    by (cases "named_temporary_file ''.jpg'' w")
  from row_world(1) [where sav = sav and p = p, OF t sv]
    row_world(2) [where sav = sav and p = p and enc = enc, OF t sv]
  obtain w2 where
    w: "tmp = (fresh w, ''.jpg'')" "save sav enc p tmp w1 = Inr w2"
       "map_of (files w2) tmp = Some (JpegFile (jpeg_of enc p))"
       "os_remove tmp w2 = Inr (after_row w)" by blast
  have px: "pos_x (st 10 y l (ps @ [q])) = 10" "pos_y (st 10 y l (ps @ [q])) = y"
    by (simp_all add: st_def)
  show ?thesis
    unfolding row_def Let_def
    using assms(2,3) w im(1) im(2) [symmetric]
    by (simp add: t px rect_st image_pdf_def draw_snoc set_xy_st cell_breaks
         col_width_img_def col_width_other_def row_height_def img_ops_def data_op_def)
qed

lemma row_fail:
  assumes "stage opn sav u = Inl e"
  shows "fst (row opn sav enc u s) = Inl e"
  using assms unfolding row_def Let_def
  by (auto simp add: stage_def save_def split: prod.splits sum.splits option.splits)

lemma rows_one:
  assumes "stage opn sav a = Inr ia"
  shows "rows opn sav enc [a] (st 10 20 10 (qs @ [head_ops header_text]), w)
     = (Inr (st 10 110 90
          (qs @ [head_ops header_text @ img_ops 20 ((fresh w, ''.jpg''), jpeg_of enc ia)
                   @ [data_op 20]])),
        after_row w)"
  using assms
    row_fits [where opn = opn and sav = sav and u = a and p = ia and y = 20 and enc = enc and l = 10
      and ps = qs and q = "head_ops header_text" and w = w]
  by simp

lemma rows_two:
  assumes "stage opn sav a = Inr ia" and "stage opn sav b = Inr ib"
  shows "rows opn sav enc [a, b] (st 10 20 10 (qs @ [head_ops header_text]), w)
     = (Inr (st 10 200 90
          (qs @ [full_page header_text ((fresh w, ''.jpg''), jpeg_of enc ia)
                     ((Suc (fresh w), ''.jpg''), jpeg_of enc ib)
                   @ [foot_op (Suc (length qs))], [data_op 10]])),
        after_row (after_row w))"
  using assms
    row_fits [where opn = opn and sav = sav and u = a and p = ia and y = 20 and enc = enc and l = 10
      and ps = qs and q = "head_ops header_text" and w = w]
    row_breaks [where opn = opn and sav = sav and u = b and p = ib and y = 110 and enc = enc and l = 90
      and ps = qs and w = "after_row w" and q = "head_ops header_text
        @ img_ops 20 ((fresh w, ''.jpg''), jpeg_of enc ia) @ [data_op 20]"]
  by (simp add: full_page_def after_row_def)

lemma loop_stop:
  "drop i images = [] \<Longrightarrow> pages_loop opn sav enc h images i s = (Inr (fst s), snd s)"
  by (subst pages_loop.simps) simp

lemma loop_step:
  assumes "drop i images = a # zs"
  shows "pages_loop opn sav enc h images i s =
     (case rows opn sav enc (take 2 (a # zs)) (table_headers h (add_page (fst s)), snd s) of
        (Inl e, wld) \<Rightarrow> (Inl e, wld)
      | (Inr pdf, wld) \<Rightarrow> pages_loop opn sav enc h images (i + 2) (pdf, wld))"
proof -
  have "i < length images" using assms by (cases "i < length images") simp_all
  then show ?thesis using assms by (subst pages_loop.simps) simp
qed

lemma drop_next:
  assumes "drop i images = a # zs"
  shows "drop (i + 2) images = drop (Suc 0) zs"
proof -
  have "drop (i + 2) images = drop 2 (drop i images)" by (simp add: add.commute)
  then show ?thesis using assms by simp
qed

lemma fresh_after_row: "fresh ((after_row ^^ n) w) = fresh w + n"
  by (induction n) (simp_all add: after_row_def)

lemma funpow_after_row2: "(after_row ^^ n) (after_row (after_row w)) = (after_row ^^ Suc (Suc n)) w"
  by (simp add: funpow_swap1)

lemma layout_more:
  "zs \<noteq> [] \<Longrightarrow> layout h n (a # b # zs) =
     [full_page h a b @ [foot_op (n + 1)], [data_op 10, foot_op (n + 2)]] @ layout h (n + 2) zs"
  by (cases zs) simp_all

lemma after_two:
  "after h (seal ps @ [full_page h a b @ [foot_op (Suc (length ps))], [data_op 10]]) zs
     = after h ps (a # b # zs)"
proof (cases zs)
  case Nil
  then show ?thesis by (simp add: after_def)
next
  case (Cons c cs)
  have "seal (seal ps @ [full_page h a b @ [foot_op (Suc (length ps))], [data_op 10]])
      = seal ps @ [full_page h a b @ [foot_op (Suc (length ps))], [data_op 10, foot_op (length ps + 2)]]"
    using seal_snoc [of "seal ps @ [full_page h a b @ [foot_op (Suc (length ps))]]" "[data_op 10]"]
    by (simp add: length_seal)
  then show ?thesis using Cons by (simp add: after_def length_seal)
qed

lemma loop_ok:
  assumes "\<forall>u\<in>set xs. \<exists>im. stage opn sav u = Inr im" and "drop i images = xs"
  shows "\<exists>x' y' l'. pages_loop opn sav enc h images i (st x y l ps, w)
     = (Inr (st x' y' l' (after h ps (staged opn sav enc (fresh w) xs))), (after_row ^^ length xs) w)"
  using assms
proof (induction xs arbitrary: i x y l ps w rule: induct_list012)
  case 1
  then have "pages_loop opn sav enc h images i (st x y l ps, w)
      = (Inr (st x y l (after h ps (staged opn sav enc (fresh w) []))), (after_row ^^ length []) w)"
    by (simp add: loop_stop after_def)
  then show ?case by blast
next
  case (2 a)
  then obtain ia where a: "stage opn sav a = Inr ia" by auto
  have nxt: "drop (Suc (Suc i)) images = []" using drop_next [OF 2(2)] by simp
  note r = rows_one [where opn = opn and sav = sav and a = a and ia = ia and enc = enc and qs = "seal ps"
        and header_text = h and w = w, OF a]
  have "pages_loop opn sav enc h images i (st x y l ps, w)
      = (Inr (st 10 110 90 (after h ps (staged opn sav enc (fresh w) [a]))), (after_row ^^ length [a]) w)"
    by (simp add: loop_step [OF 2(2)] start_page r loop_stop [OF nxt] after_def length_seal a
          del: rows.simps)
  then show ?case by blast
next
  case (3 a b zs)
  then obtain ia ib where a: "stage opn sav a = Inr ia" and b: "stage opn sav b = Inr ib" by auto
  have nxt: "drop (i + 2) images = zs" using drop_next [OF 3(4)] by simp
  have ok: "\<forall>u\<in>set zs. \<exists>im. stage opn sav u = Inr im" using 3(3) by simp
  let ?a = "((fresh w, ''.jpg''), jpeg_of enc ia)"
  let ?b = "((Suc (fresh w), ''.jpg''), jpeg_of enc ib)"
  let ?ps = "seal ps @ [full_page h ?a ?b @ [foot_op (Suc (length ps))], [data_op 10]]"
  from "3.IH"(1) [OF ok nxt, of 10 200 90 ?ps "after_row (after_row w)"]
  obtain x' y' l' where run:
    "pages_loop opn sav enc h images (i + 2) (st 10 200 90 ?ps, after_row (after_row w))
       = (Inr (st x' y' l' (after h ?ps (staged opn sav enc (fresh (after_row (after_row w))) zs))),
          (after_row ^^ length zs) (after_row (after_row w)))"
    by blast
  have fr: "fresh (after_row (after_row w)) = Suc (Suc (fresh w))" by (simp add: after_row_def)
  note r = rows_two [where opn = opn and sav = sav and a = a and ia = ia and b = b and ib = ib and enc = enc
        and qs = "seal ps" and header_text = h and w = w, OF a b]
  have "pages_loop opn sav enc h images i (st x y l ps, w)
      = (Inr (st x' y' l' (after h ps (staged opn sav enc (fresh w) (a # b # zs)))),
         (after_row ^^ length (a # b # zs)) w)"
    using run
    by (simp add: loop_step [OF 3(4)] start_page r length_seal fr after_two a b funpow_after_row2
          del: rows.simps funpow.simps)
  then show ?case by blast
qed

lemma rows_fail:
  assumes "stage opn sav u = Inl e"
  shows "fst (rows opn sav enc (u # bs) s) = Inl e"
  using row_fail [where opn = opn and sav = sav and u = u and e = e and enc = enc and s = s, OF assms]
  by (cases "row opn sav enc u s") auto

lemma rows_fail_second:
  assumes "stage opn sav a = Inr ia" and "stage opn sav u = Inl e"
  shows "fst (rows opn sav enc [a, u] (st 10 20 10 (qs @ [head_ops header_text]), w)) = Inl e"
proof -
  note r = row_fits [where opn = opn and sav = sav and u = a and p = ia and y = 20 and enc = enc and l = 10
      and ps = qs and q = "head_ops header_text" and w = w, OF assms(1)]
  note f = rows_fail [where opn = opn and sav = sav and u = u and e = e and enc = enc and bs = "[]", OF assms(2)]
  show ?thesis
    using r f by (simp del: rows.simps add: rows.simps(2) [of _ _ _ a])
qed

lemma loop_fail_now:
  assumes "drop i images = a # zs"
    and "fst (rows opn sav enc (take 2 (a # zs)) (table_headers h (add_page (fst s)), snd s)) = Inl e"
  shows "fst (pages_loop opn sav enc h images i s) = Inl e"
  using assms(2) unfolding loop_step [OF assms(1)]
  by (cases "rows opn sav enc (take 2 (a # zs)) (table_headers h (add_page (fst s)), snd s)") auto

lemma loop_fail:
  assumes "\<forall>v\<in>set us. \<exists>im. stage opn sav v = Inr im" and "stage opn sav u = Inl e" and "drop i images = us @ u # vs"
  shows "fst (pages_loop opn sav enc h images i (st x y l ps, w)) = Inl e"
  using assms
proof (induction us arbitrary: i x y l ps w rule: induct_list012)
  case 1
  then have d: "drop i images = u # vs" by simp
  have "take 2 (u # vs) = u # take 1 vs" by (simp add: numeral_2_eq_2)
  then show ?case
    using rows_fail [where opn = opn and sav = sav and u = u and e = e and enc = enc, OF 1(2)]
    by (intro loop_fail_now [OF d]) simp
next
  case (2 a)
  then obtain ia where a: "stage opn sav a = Inr ia" by auto
  have d: "drop i images = a # u # vs" using 2 by simp
  have t: "take 2 (a # u # vs) = [a, u]" by (simp add: numeral_2_eq_2)
  show ?case
    using rows_fail_second [where opn = opn and sav = sav and a = a and ia = ia and u = u and e = e, OF a 2(2)]
    by (intro loop_fail_now [OF d]) (simp add: t start_page del: rows.simps)
next
  case (3 a b zs)
  then obtain ia ib where a: "stage opn sav a = Inr ia" and b: "stage opn sav b = Inr ib" by auto
  have d: "drop i images = a # b # (zs @ u # vs)" using 3 by simp
  have nxt: "drop (i + 2) images = zs @ u # vs" using drop_next [OF d] by simp
  have ok: "\<forall>v\<in>set zs. \<exists>im. stage opn sav v = Inr im" using 3(3) by simp
  note r = rows_two [where opn = opn and sav = sav and a = a and ia = ia and b = b and ib = ib and enc = enc
        and qs = "seal ps" and header_text = h and w = w, OF a b]
  show ?case
    using "3.IH"(1) [OF ok 3(4) nxt]
    by (simp add: loop_step [OF d] start_page r del: rows.simps)
qed

lemma after_Nil: "after h [] zs = layout h 0 zs"
  by (cases zs) (simp_all add: after_def seal_def)

lemma generate_ok:
  assumes "\<forall>u\<in>set images. \<exists>im. stage opn sav u = Inr im"
  shows "\<exists>x y l. generate_pdf opn sav enc images header_text w
     = (Inr (st x y l (layout header_text 0 (staged opn sav enc (fresh w) images))),
        (after_row ^^ length images) w)"
  using loop_ok [where xs = images and i = 0 and images = images and opn = opn and enc = enc
      and h = header_text and x = 0 and y = 0 and l = 0 and ps = "[]" and w = w] assms
  by (simp add: generate_pdf_def set_margins_PDF after_Nil)

lemma split_first_error:
  assumes "\<not> (\<forall>u\<in>set xs. \<exists>im. f u = Inr im)"
  shows "\<exists>us u vs e. xs = us @ u # vs \<and> (\<forall>v\<in>set us. \<exists>im. f v = Inr im) \<and> f u = Inl e"
proof -
  from assms have "\<exists>u\<in>set xs. \<not> (\<exists>im. f u = Inr im)" by blast
  then obtain us u vs where s: "xs = us @ u # vs" and u: "\<not> (\<exists>im. f u = Inr im)"
      and us: "\<forall>v\<in>set us. \<not> \<not> (\<exists>im. f v = Inr im)"
    using split_list_first_prop [of xs "\<lambda>u. \<not> (\<exists>im. f u = Inr im)"] by blast
  from u obtain e where "f u = Inl e" by (cases "f u") auto
  with s us show ?thesis by blast
qed

lemma generate_fail:
  assumes "\<forall>v\<in>set us. \<exists>im. stage opn sav v = Inr im" and "stage opn sav u = Inl e"
  shows "fst (generate_pdf opn sav enc (us @ u # vs) header_text w) = Inl e"
  using loop_fail [where us = us and u = u and vs = vs and i = 0 and opn = opn and sav = sav
      and e = e, OF assms]
  by (simp add: generate_pdf_def set_margins_PDF)

lemma generate_Inr_all_ok:
  assumes "generate_pdf opn sav enc images header_text w = (Inr pdf, w')"
  shows "\<forall>u\<in>set images. \<exists>im. stage opn sav u = Inr im"
proof (rule ccontr)
  assume "\<not> ?thesis"
  from split_first_error [OF this] obtain us u vs e where
    "images = us @ u # vs" "\<forall>v\<in>set us. \<exists>im. stage opn sav v = Inr im" "stage opn sav u = Inl e" by blast
  then have "fst (generate_pdf opn sav enc images header_text w) = Inl e"
    using generate_fail [where us = us and opn = opn and sav = sav and u = u and e = e
        and enc = enc and vs = vs and header_text = header_text and w = w] by simp
  with assms show False by simp
qed

lemma length_staged:
  "\<forall>u\<in>set xs. \<exists>im. stage opn sav u = Inr im \<Longrightarrow> length (staged opn sav enc f xs) = length xs"
  by (induction xs arbitrary: f) auto

lemma generate_pages:
  assumes "generate_pdf opn sav enc images header_text w = (Inr pdf, w')"
  shows "pages pdf = layout header_text 0 (staged opn sav enc (fresh w) images)"
    and "length (staged opn sav enc (fresh w) images) = length images"
    and "page_h pdf = 210" and "page_break_trigger pdf = 190"
proof -
  note ok = generate_Inr_all_ok [OF assms]
  from generate_ok [OF ok, of enc header_text w] assms
  obtain x y l where "pdf = st x y l (layout header_text 0 (staged opn sav enc (fresh w) images))"
    by auto
  then show "pages pdf = layout header_text 0 (staged opn sav enc (fresh w) images)"
    and "page_h pdf = 210" and "page_break_trigger pdf = 190"
    by (simp_all add: st_def page_break_trigger_def)
  show "length (staged opn sav enc (fresh w) images) = length images"
    using ok by (rule length_staged)
qed

section \<open>Properties of the closed form\<close>

lemmas layout_ops = head_ops_def img_ops_def data_op_def foot_op_def full_page_def

lemma length_layout: "length (layout h n xs) = length xs"
  by (induction h n xs rule: layout.induct) simp_all

lemma layout_header_rows:
  "list_all (\<lambda>p. header_row p = [] \<or> header_row p = head_ops h) (layout h n xs)"
  by (induction h n xs rule: layout.induct) (simp_all add: header_row_def layout_ops)

lemma layout_header_count:
  "length (filter (\<lambda>p. header_row p \<noteq> []) (layout h n xs)) = (length xs + 1) div 2"
  by (induction h n xs rule: layout.induct) (simp_all add: header_row_def layout_ops)

lemma layout_first_page:
  "xs \<noteq> [] \<Longrightarrow> header_row (hd (layout h n xs)) = head_ops h"
  by (induction h n xs rule: layout.induct) (simp_all add: header_row_def layout_ops)



lemma layout_imgs:
  "map embedded (filter is_Img (concat (layout h n xs))) = map snd xs"
  by (induction h n xs rule: layout.induct) (simp_all add: layout_ops)

lemma layout_geometry:
  "length xs = length ys \<Longrightarrow> map (map geom) (layout h n xs) = map (map geom) (layout h' n' ys)"
proof (induction h n xs arbitrary: ys n' rule: layout.induct)
  case (1 h n)
  then show ?case by simp
next
  case (2 h n a)
  then obtain b where "ys = [b]" by (cases ys) auto
  then show ?case by (simp add: layout_ops)
next
  case (3 h n a b)
  then obtain c d where "ys = [c, d]" by (cases ys; cases "tl ys") auto
  then show ?case by (simp add: layout_ops)
next
  case (4 h n a b c cs)
  then obtain a' b' c' cs' where ys: "ys = a' # b' # c' # cs'" and l: "length (c # cs) = length (c' # cs')"
    by (cases ys; cases "tl ys"; cases "tl (tl ys)") auto
  from "4.IH" [OF l, of "n' + 2"] show ?case unfolding ys by (simp add: layout_ops)
qed

lemma stage_ok:
  "opn u = Inr im \<Longrightarrow> sav (convert Mode_RGB im) = None \<Longrightarrow> stage opn sav u = Inr (convert Mode_RGB im)"
  by (simp add: stage_def)

lemma staged_snd:
  "map opn images = map Inr ims \<Longrightarrow> list_all (\<lambda>im. sav (convert Mode_RGB im) = None) ims \<Longrightarrow>
   map snd (staged opn sav enc f images) = map (\<lambda>im. jpeg_of enc (convert Mode_RGB im)) ims"
proof (induction images arbitrary: ims f)
  case Nil
  then show ?case by simp
next
  case (Cons u us)
  then obtain im ims' where "ims = im # ims'" "opn u = Inr im" "map opn us = map Inr ims'"
    "sav (convert Mode_RGB im) = None" "list_all (\<lambda>im. sav (convert Mode_RGB im) = None) ims'"
    by (cases ims) auto
  with Cons.IH [of ims' "Suc f"] show ?case by (simp add: stage_ok)
qed

lemma decodable:
  "map opn images = map Inr ims \<Longrightarrow> list_all (\<lambda>im. sav (convert Mode_RGB im) = None) ims \<Longrightarrow>
   \<forall>u\<in>set images. \<exists>p. stage opn sav u = Inr p"
proof (induction images arbitrary: ims)
  case Nil
  then show ?case by simp
next
  case (Cons u us)
  then obtain im ims' where "ims = im # ims'" "opn u = Inr im" "map opn us = map Inr ims'"
    "sav (convert Mode_RGB im) = None" "list_all (\<lambda>im. sav (convert Mode_RGB im) = None) ims'"
    by (cases ims) auto
  with Cons.IH [of ims'] show ?case by (simp add: stage_ok)
qed

lemma generate_decodable:
  assumes "map opn images = map Inr ims"
    and "list_all (\<lambda>im. sav (convert Mode_RGB im) = None) ims"
  shows "\<exists>x y l w'. generate_pdf opn sav enc images header_text w
       = (Inr (st x y l (layout header_text 0 (staged opn sav enc (fresh w) images))), w')
     \<and> length (staged opn sav enc (fresh w) images) = length images
     \<and> map snd (staged opn sav enc (fresh w) images)
         = map (\<lambda>im. jpeg_of enc (convert Mode_RGB im)) ims"
proof -
  note ok = decodable [OF assms]
  from generate_ok [OF ok, of enc header_text w]
  obtain x y l where "generate_pdf opn sav enc images header_text w
       = (Inr (st x y l (layout header_text 0 (staged opn sav enc (fresh w) images))),
          (after_row ^^ length images) w)"
    by blast
  moreover have "length (staged opn sav enc (fresh w) images) = length images"
    using ok by (rule length_staged)
  moreover have "map snd (staged opn sav enc (fresh w) images)
       = map (\<lambda>im. jpeg_of enc (convert Mode_RGB im)) ims"
    using assms by (rule staged_snd)
  ultimately show ?thesis by blast
qed

lemma staged_all:
  "map (stage opn sav) us = map Inr ps \<Longrightarrow> \<forall>v\<in>set us. \<exists>p. stage opn sav v = Inr p"
proof (induction us arbitrary: ps)
  case Nil
  then show ?case by simp
next
  case (Cons u us)
  then obtain p ps' where "ps = p # ps'" "stage opn sav u = Inr p"
      "map (stage opn sav) us = map Inr ps'"
    by (cases ps) auto
  with Cons.IH [of ps'] show ?case by simp
qed


text \<open>Closing and writing the document.\<close>

lemma close_doc_st:
  "pages (close_doc (st x y l ps)) = (if ps = [] then [[foot_op 1]] else seal ps)"
proof (cases ps rule: rev_cases)
  case Nil
  have "add_page (st x y l []) = st 10 10 l ([] @ [[]])" by (simp add: add_page_empty)
  then show ?thesis
    using Nil footer_snoc [of 10 10 l "[]" "[]"]
    by (simp add: close_doc_def st_def)
next
  case (snoc ps' q)
  have "pages (st x y l (ps' @ [q])) \<noteq> []" by (simp add: st_def)
  then show ?thesis
    using snoc by (simp add: close_doc_def footer_snoc seal_snoc) (simp add: st_def)
qed

lemma header_row_foot: "header_row (q @ [foot_op n]) = header_row q"
  by (simp add: header_row_def foot_op_def)

lemma header_rows_seal: "map header_row (seal ps) = map header_row ps"
proof (cases ps rule: rev_cases)
  case Nil
  then show ?thesis by (simp add: seal_def)
next
  case (snoc ps' q)
  then show ?thesis by (simp add: seal_snoc header_row_foot)
qed

lemma header_rows_closed:
  "map header_row (pages (close_doc (st x y l (layout h 0 xs)))) =
     (if xs = [] then [[]] else map header_row (layout h 0 xs))"
proof (cases xs)
  case Nil
  then show ?thesis by (simp add: close_doc_st header_row_def foot_op_def)
next
  case (Cons a as)
  then have "layout h 0 xs \<noteq> []" by (cases as; cases "tl as") simp_all
  then show ?thesis using Cons by (simp add: close_doc_st header_rows_seal)
qed

lemma of_char_less_256: "(of_char c :: nat) < 256"
proof -
  have "(of_char c :: nat) mod 256 < 256" by simp
  then show ?thesis by (simp only: of_char_mod_256)
qed

lemma latin1_unicode: "latin1 (unicode s)"
  by (simp add: latin1_def unicode_def list_all_iff of_char_less_256)

lemma latin1_layout:
  "latin1 h \<Longrightarrow> list_all (list_all (\<lambda>d. latin1 (text_of d))) (layout h n xs)"
  by (induction h n xs rule: layout.induct) (simp_all add: layout_ops latin1_unicode, simp_all add: latin1_def)

lemma latin1_seal:
  "list_all (list_all (\<lambda>d. latin1 (text_of d))) ps \<Longrightarrow>
   list_all (list_all (\<lambda>d. latin1 (text_of d))) (seal ps)"
proof (cases ps rule: rev_cases)
  case Nil
  then show ?thesis by (simp add: seal_def)
next
  case (snoc ps' q)
  assume "list_all (list_all (\<lambda>d. latin1 (text_of d))) ps"
  then show ?thesis using snoc by (simp add: seal_snoc foot_op_def latin1_unicode)
qed

lemma output_latin1:
  assumes "latin1 h"
  shows "output_pdf name (st x y l (layout h 0 xs)) w
     = Inr (w\<lparr>files := write_file name (PdfFile (pages (close_doc (st x y l (layout h 0 xs))))) (files w)\<rparr>)"
proof -
  have "list_all (list_all (\<lambda>d. latin1 (text_of d))) (pages (close_doc (st x y l (layout h 0 xs))))"
    using latin1_seal [OF latin1_layout [OF assms, of 0 xs]]
    by (simp add: close_doc_st foot_op_def latin1_unicode)
  then show ?thesis by (simp add: output_pdf_def Let_def)
qed

text \<open>On uploads that can be staged the document has as many pages as there are
  uploads: every batch of two takes two pages.\<close>

lemma generate_page_count:
  assumes "map opn images = map Inr ims"
    and "list_all (\<lambda>im. sav (convert Mode_RGB im) = None) ims"
  shows "\<exists>pdf w'. generate_pdf opn sav enc images header_text wld = (Inr pdf, w')
     \<and> page_no pdf = length images"
proof -
  from generate_decodable [OF assms, of enc header_text wld]
  obtain x y l w' where g: "generate_pdf opn sav enc images header_text wld
       = (Inr (st x y l (layout header_text 0 (staged opn sav enc (fresh wld) images))), w')"
    and n: "length (staged opn sav enc (fresh wld) images) = length images" by blast
  have "page_no (st x y l (layout header_text 0 (staged opn sav enc (fresh wld) images)))
      = length images"
    by (simp add: page_no_def st_def length_layout n)
  with g show ?thesis by blast
qed

text \<open>The page break of \<open>cell\<close> is what separates the result from the layout the
  loop aims at: with automatic page breaking switched off, the same loop puts three
  uploads on two pages, with two image rows and one.\<close>

lemma without_page_break_two_pages:
  "map_sum id (\<lambda>pdf. map (\<lambda>p. length (image_rows p)) (pages pdf))
     (fst (pages_loop sample_open sample_save sample_enc (unicode ''pic'') [1, 2, 3] 0
        ((set_margins margin margin margin PDF)\<lparr>auto_page_break := False\<rparr>, empty_world)))
   = Inr [2, 1]"
  by code_simp

text \<open>A picture that decodes but cannot be saved as a JPEG ends the run like one that
  cannot be read, and its staging file stays as well.\<close>

lemma save_failure_keeps_staging_file:
  "generate_pdf sample_open sample_save sample_enc [200] (unicode ''pic'') empty_world
     = (Inl ''encoder error when writing image file'', \<lparr>fresh = 1, files = [((0, ''.jpg''), Blank)]\<rparr>)"
  by code_simp

section \<open>The claims\<close>

text \<open>
  Claim C1 says that \<open>N\<close> images give a document of \<open>ceil(N/2)\<close> pages, and that
  three images give two pages, the second with one image row. The code aims at two
  photos a page, but the second row of a page ends at 110 + 90 = 200 mm, beyond the
  page-break limit of 210 - 20 = 190 mm, so \<open>cell\<close> starts a new page for that row's
  data cell. Evaluated on three readable uploads the code returns three pages, holding
  2, 0 and 1 image rows.
\<close>

theorem three_images_three_pages:
  "map_sum id (\<lambda>pdf. map (\<lambda>p. length (image_rows p)) (pages pdf))
     (fst (generate_pdf sample_open sample_save sample_enc [1, 2, 3] (unicode ''pic'') empty_world))
   = Inr [2, 0, 1]"
  by code_simp

text \<open>
  Claim C2 says that every image row has its image cell and its data cell in the same
  vertical span and that every page has its header row once. Evaluated on two readable
  uploads the code returns two pages: the first ends with the border and picture of the
  second row (at 110 mm) and the footer, without that row's data cell; the second page
  has no header row and holds only that data cell, at 10 mm.
\<close>

theorem two_images_pages:
  "map_sum id pages
     (fst (generate_pdf sample_open sample_save sample_enc [1, 2] (unicode ''pic'') empty_world))
     = Inr [[Cell 10 10 80 10 (unicode ''pic'') 1 ''C'',
             Cell 90 10 190 10 (unicode ''Notes / Data'') 1 ''L'',
             Rect 10 20 80 90,
             Img 12 22 76 86 (0, ''.jpg'') ''JPG'' (jpeg_of sample_enc (convert Mode_RGB (photo 1))),
             Cell 90 20 190 90 [] 1 '''',
             Rect 10 110 80 90,
             Img 12 112 76 86 (1, ''.jpg'') ''JPG'' (jpeg_of sample_enc (convert Mode_RGB (photo 2))),
             Cell 10 195 277 10 (unicode ''Page 1'') 0 ''C''],
            [Cell 90 10 190 90 [] 1 '''']]"
  by code_simp

text \<open>
  Claim C3 as stated, at a label outside Latin-1 (the single character U+3042) and one
  readable upload: no page renders the label, because writing the document raises
  \<open>UnicodeEncodeError\<close>; the page shows the error box and no download button.
\<close>

theorem label_outside_latin1_no_document:
  "fst (ui sample_open sample_save sample_enc [1] True [12354] empty_world)
     = [Success ''Uploaded 1 images.'', Error ''An error occurred: '' UnicodeEncodeError]"
  by code_simp

text \<open>
  Claim C3, amended to labels within Latin-1 and to the pages that carry a header row.
  Whenever every upload can be read and saved and the label has only Latin-1 characters
  (the empty label included), the document is built and can be written, and in the
  written document every page that has a header row has exactly the label cell followed
  by the \<open>Notes / Data\<close> cell: the first cell, 80 mm wide in the image column, carries the
  caller's label unchanged. There are as many header rows as batches, and for a non-empty
  input the first page starts with one.
\<close>

theorem header_label_verbatim:
  assumes "map opn images = map Inr ims"
    and "list_all (\<lambda>im. sav (convert Mode_RGB im) = None) ims"
    and "latin1 header_text"
  shows "\<exists>pdf w'. generate_pdf opn sav enc images header_text wld = (Inr pdf, w')
     \<and> output_pdf name pdf w2
         = Inr (w2\<lparr>files := write_file name (PdfFile (pages (close_doc pdf))) (files w2)\<rparr>)
     \<and> list_all (\<lambda>p. header_row p = [] \<or> header_row p =
           [Cell 10 10 col_width_img 10 header_text 1 ''C'',
            Cell 90 10 col_width_other 10 (unicode ''Notes / Data'') 1 ''L''])
         (pages (close_doc pdf))
     \<and> length (filter (\<lambda>p. header_row p \<noteq> []) (pages (close_doc pdf))) = (length images + 1) div 2
     \<and> (images = [] \<or> ctext (hd (header_row (hd (pages (close_doc pdf))))) = header_text)"
proof -
  let ?xs = "staged opn sav enc (fresh wld) images"
  let ?H = "[Cell 10 10 col_width_img 10 header_text 1 ''C'',
            Cell 90 10 col_width_other 10 (unicode ''Notes / Data'') 1 ''L'']"
  from generate_decodable [OF assms(1,2), of enc header_text wld]
  obtain x y l w' where g: "generate_pdf opn sav enc images header_text wld
       = (Inr (st x y l (layout header_text 0 ?xs)), w')"
    and n: "length ?xs = length images" by blast
  let ?pdf = "st x y l (layout header_text 0 ?xs)"
  let ?doc = "pages (close_doc ?pdf)"
  have hr: "map header_row ?doc = (if ?xs = [] then [[]] else map header_row (layout header_text 0 ?xs))"
    by (rule header_rows_closed)
  have o: "output_pdf name ?pdf w2
         = Inr (w2\<lparr>files := write_file name (PdfFile ?doc) (files w2)\<rparr>)"
    by (rule output_latin1 [OF assms(3)])
  have H: "head_ops header_text = ?H"
    by (simp add: head_ops_def col_width_img_def col_width_other_def)
  have "list_all (\<lambda>r. r = [] \<or> r = ?H) (map header_row (layout header_text 0 ?xs))"
    using layout_header_rows [of header_text 0 ?xs] by (simp add: list.pred_map comp_def H)
  then have "list_all (\<lambda>r. r = [] \<or> r = ?H) (map header_row ?doc)"
    unfolding hr by simp
  then have a: "list_all (\<lambda>p. header_row p = [] \<or> header_row p = ?H) ?doc"
    by (simp add: list.pred_map comp_def)
  have "length (filter (\<lambda>r. r \<noteq> []) (map header_row (layout header_text 0 ?xs)))
      = (length images + 1) div 2"
    using layout_header_count [of header_text 0 ?xs] by (simp add: filter_map comp_def n)
  moreover have "?xs = [] \<Longrightarrow> (length images + 1) div 2 = 0" using n by simp
  ultimately have "length (filter (\<lambda>r. r \<noteq> []) (map header_row ?doc)) = (length images + 1) div 2"
    unfolding hr by simp
  then have b: "length (filter (\<lambda>p. header_row p \<noteq> []) ?doc) = (length images + 1) div 2"
    by (simp add: filter_map comp_def)
  have c: "images = [] \<or> ctext (hd (header_row (hd ?doc))) = header_text"
  proof (cases "images = []")
    case True
    then show ?thesis by simp
  next
    case False
    then have ne: "?xs \<noteq> []" using n by auto
    then have l: "layout header_text 0 ?xs \<noteq> []"
      by (cases ?xs; cases "tl ?xs"; cases "tl (tl ?xs)") simp_all
    have "?doc \<noteq> []" using l by (simp add: close_doc_st seal_def)
    then have "header_row (hd ?doc) = hd (map header_row ?doc)" by (simp add: hd_map)
    also have "\<dots> = header_row (hd (layout header_text 0 ?xs))"
      unfolding hr using ne l by (simp add: hd_map)
    also have "\<dots> = head_ops header_text" by (rule layout_first_page [OF ne])
    finally show ?thesis by (simp add: head_ops_def)
  qed
  from g o a b c show ?thesis by blast
qed

theorem header_label_verbatim_witness:
  "\<exists>pdf w'. generate_pdf sample_open sample_save sample_enc [1, 2, 3] (unicode ''a <b> & 100%'')
         empty_world = (Inr pdf, w')
     \<and> output_pdf (7, ''.pdf'') pdf empty_world
         = Inr (empty_world\<lparr>files := write_file (7, ''.pdf'') (PdfFile (pages (close_doc pdf)))
                  (files empty_world)\<rparr>)
     \<and> list_all (\<lambda>p. header_row p = [] \<or> header_row p =
           [Cell 10 10 col_width_img 10 (unicode ''a <b> & 100%'') 1 ''C'',
            Cell 90 10 col_width_other 10 (unicode ''Notes / Data'') 1 ''L''])
         (pages (close_doc pdf))
     \<and> length (filter (\<lambda>p. header_row p \<noteq> []) (pages (close_doc pdf)))
         = (length [1, 2, 3 :: nat] + 1) div 2
     \<and> ctext (hd (header_row (hd (pages (close_doc pdf))))) = unicode ''a <b> & 100%''"
  using header_label_verbatim [where opn = sample_open and sav = sample_save
      and images = "[1, 2, 3]" and ims = "[photo 1, photo 2, photo 3]" and enc = sample_enc
      and header_text = "unicode ''a <b> & 100%''" and wld = empty_world
      and name = "(7, ''.pdf'')" and ?w2.0 = empty_world]
  by (simp add: sample_open_def sample_save_def photo_def convert_def latin1_unicode)




text \<open>
  Claim C5. Whenever every upload can be read and saved, the pictures embedded in the
  document are, in input order, the JPEG files written from the uploads after conversion
  to RGB; none of them has an alpha channel, whatever the mode of the upload was.
\<close>

theorem pictures_flattened:
  assumes "map opn images = map Inr ims"
    and "list_all (\<lambda>im. sav (convert Mode_RGB im) = None) ims"
  shows "\<exists>pdf w'. generate_pdf opn sav enc images header_text wld = (Inr pdf, w')
     \<and> map embedded (filter is_Img (concat (pages pdf)))
         = map (\<lambda>im. jpeg_of enc (convert Mode_RGB im)) ims
     \<and> list_all (\<lambda>d. jp_mode (embedded d) = Mode_RGB \<and> \<not> has_alpha (jp_mode (embedded d)))
         (filter is_Img (concat (pages pdf)))"
proof -
  let ?xs = "staged opn sav enc (fresh wld) images"
  from generate_decodable [OF assms, of enc header_text wld]
  obtain x y l w' where g: "generate_pdf opn sav enc images header_text wld
       = (Inr (st x y l (layout header_text 0 ?xs)), w')"
    and s: "map snd ?xs = map (\<lambda>im. jpeg_of enc (convert Mode_RGB im)) ims" by blast
  let ?pdf = "st x y l (layout header_text 0 ?xs)"
  have p: "pages ?pdf = layout header_text 0 ?xs" by (simp add: st_def)
  have e: "map embedded (filter is_Img (concat (pages ?pdf)))
      = map (\<lambda>im. jpeg_of enc (convert Mode_RGB im)) ims"
    by (simp only: p layout_imgs s)
  have "list_all (\<lambda>j. jp_mode j = Mode_RGB \<and> \<not> has_alpha (jp_mode j))
      (map embedded (filter is_Img (concat (pages ?pdf))))"
    unfolding e by (simp add: list_all_iff jpeg_of_def convert_def has_alpha_def)
  then have "list_all (\<lambda>d. jp_mode (embedded d) = Mode_RGB \<and> \<not> has_alpha (jp_mode (embedded d)))
      (filter is_Img (concat (pages ?pdf)))"
    by (simp add: list.pred_map comp_def)
  with g e show ?thesis by blast
qed

theorem pictures_flattened_witness:
  "has_alpha (im_mode (photo 1)) \<and>
   (\<exists>pdf w'. generate_pdf sample_open sample_save sample_enc [1, 2, 3] (unicode ''pic'') empty_world
         = (Inr pdf, w')
     \<and> map embedded (filter is_Img (concat (pages pdf)))
         = [jpeg_of sample_enc (convert Mode_RGB (photo 1)),
            jpeg_of sample_enc (convert Mode_RGB (photo 2)),
            jpeg_of sample_enc (convert Mode_RGB (photo 3))]
     \<and> list_all (\<lambda>d. jp_mode (embedded d) = Mode_RGB \<and> \<not> has_alpha (jp_mode (embedded d)))
         (filter is_Img (concat (pages pdf))))"
  using pictures_flattened [where opn = sample_open and sav = sample_save
      and images = "[1, 2, 3]" and ims = "[photo 1, photo 2, photo 3]" and enc = sample_enc
      and header_text = "unicode ''pic''" and wld = empty_world]
  by (simp add: sample_open_def sample_save_def photo_def convert_def has_alpha_def)

text \<open>
  Claim C6 as stated, at the empty upload list: \<open>generate_pdf\<close> would have to end in
  an error, or the page would have to show one. Neither happens: the function returns
  normally, and the page shows its note and nothing else.
\<close>

theorem empty_upload_no_error_stated:
  "\<not> isl (fst (generate_pdf sample_open sample_save sample_enc [] (unicode ''pic'') empty_world))
   \<and> fst (ui sample_open sample_save sample_enc [] True (unicode ''pic'') empty_world)
       = [Info ''Please upload images to start.'']"
  by (simp add: generate_pdf_def loop_stop ui_def)

text \<open>
  Claim C6, amended. For an empty image list \<open>generate_pdf\<close> returns the freshly
  configured document, which has no pages, raises no error and touches no file. The page
  does not call it for an empty upload: whether or not the button is pressed it shows
  the note \<open>Please upload images to start.\<close>, no error and no download button.
\<close>

theorem empty_upload:
  "generate_pdf opn sav enc [] header_text wld = (Inr (set_margins margin margin margin PDF), wld)
   \<and> pages (set_margins margin margin margin PDF) = []
   \<and> ui opn sav enc [] pressed col_header wld = ([Info ''Please upload images to start.''], wld)"
  by (simp add: generate_pdf_def loop_stop ui_def set_margins_def PDF_def)

text \<open>
  Claim C7. Staging an upload is opening it, converting it to RGB and saving it as a
  JPEG file (\<open>stage\<close>). If the uploads before \<open>u\<close> can be staged and \<open>u\<close> cannot, because
  opening, converting or saving it raises with message \<open>e\<close>, then \<open>generate_pdf\<close> ends
  with that error and returns no document, and the page, after the button is pressed,
  shows below the upload count exactly one error box carrying \<open>e\<close> and no download
  button, whatever the label and whatever comes after \<open>u\<close>.
\<close>

theorem unstageable_image_aborts:
  assumes "map (stage opn sav) us = map Inr ps" and "stage opn sav u = Inl e"
  shows "fst (generate_pdf opn sav enc (us @ u # vs) col_header wld) = Inl e
     \<and> fst (ui opn sav enc (us @ u # vs) True col_header wld)
         = [Success (''Uploaded '' @ str (length (us @ u # vs)) @ '' images.''),
            Error ''An error occurred: '' (Exception e)]"
proof -
  have g: "fst (generate_pdf opn sav enc (us @ u # vs) col_header wld) = Inl e"
    using generate_fail [where opn = opn and sav = sav and us = us and u = u and e = e,
        OF staged_all [OF assms(1)] assms(2)]
    by simp
  then obtain w1 where "generate_pdf opn sav enc (us @ u # vs) col_header wld = (Inl e, w1)"
    by (cases "generate_pdf opn sav enc (us @ u # vs) col_header wld") auto
  then have "fst (ui opn sav enc (us @ u # vs) True col_header wld)
         = [Success (''Uploaded '' @ str (length (us @ u # vs)) @ '' images.''),
            Error ''An error occurred: '' (Exception e)]"
    by (simp add: ui_def)
  with g show ?thesis by simp
qed

theorem unstageable_image_aborts_witness:
  "fst (ui sample_open sample_save sample_enc [1, 0, 200] True (unicode ''pic'') empty_world)
       = [Success ''Uploaded 3 images.'',
          Error ''An error occurred: '' (Exception ''cannot identify image file'')]
   \<and> fst (ui sample_open sample_save sample_enc [1, 200, 0] True (unicode ''pic'') empty_world)
       = [Success ''Uploaded 3 images.'',
          Error ''An error occurred: '' (Exception ''encoder error when writing image file'')]"
  using unstageable_image_aborts [where opn = sample_open and sav = sample_save and us = "[1]"
      and ps = "[convert Mode_RGB (photo 1)]" and u = 0 and e = "''cannot identify image file''"
      and vs = "[200]" and enc = sample_enc and col_header = "unicode ''pic''" and wld = empty_world]
    unstageable_image_aborts [where opn = sample_open and sav = sample_save and us = "[1]"
      and ps = "[convert Mode_RGB (photo 1)]" and u = 200
      and e = "''encoder error when writing image file''"
      and vs = "[0]" and enc = sample_enc and col_header = "unicode ''pic''" and wld = empty_world]
  by (simp add: stage_def sample_open_def sample_save_def photo_def convert_def str.simps digit_def)

text \<open>
  Claim C8 says that every temporary file is deleted before the operation returns, on
  success and on failure. The code removes the staging file of a picture only after the
  picture was placed, and never removes the file it writes the document to. Evaluated
  from an empty temporary directory: after a successful run on one readable upload the
  document's file is still there, and after a run on one unreadable upload the staging
  file is still there.
\<close>

theorem temporary_files_left:
  "map fst (files (snd (ui sample_open sample_save sample_enc [1] True (unicode ''pic'') empty_world)))
     = [(1, ''.pdf'')]
   \<and> map fst (files (snd (ui sample_open sample_save sample_enc [0] True (unicode ''pic'') empty_world)))
     = [(0, ''.jpg'')]"
  by code_simp

text \<open>
  Claim C9. Two runs on the same uploads (the same files, so the same results \<open>opn\<close> of
  the decoder and the same pictures refused by the JPEG writer, \<open>sav\<close>) and the same
  label, with any two JPEG encoders and any two states of the temporary directory,
  either both fail with the same message or both return documents of identical
  geometry: the same number of pages and, page by page, the same kinds of operations in
  the same boxes.
\<close>

theorem geometry_independent_of_encoding:
  "map_sum id geometry (fst (generate_pdf opn sav enc1 images header_text w1))
     = map_sum id geometry (fst (generate_pdf opn sav enc2 images header_text w2))"
proof (cases "\<forall>u\<in>set images. \<exists>im. stage opn sav u = Inr im")
  case True
  from generate_ok [OF True, of enc1 header_text w1] obtain x1 y1 l1 where
    g1: "fst (generate_pdf opn sav enc1 images header_text w1)
      = Inr (st x1 y1 l1 (layout header_text 0 (staged opn sav enc1 (fresh w1) images)))" by force
  from generate_ok [OF True, of enc2 header_text w2] obtain x2 y2 l2 where
    g2: "fst (generate_pdf opn sav enc2 images header_text w2)
      = Inr (st x2 y2 l2 (layout header_text 0 (staged opn sav enc2 (fresh w2) images)))" by force
  have "length (staged opn sav enc1 (fresh w1) images) = length (staged opn sav enc2 (fresh w2) images)"
    using True by (simp add: length_staged)
  from layout_geometry [OF this, of header_text 0 header_text 0] show ?thesis
    by (simp add: g1 g2 geometry_def st_def)
next
  case False
  from split_first_error [OF False] obtain us u vs e where
    s: "images = us @ u # vs" and ok: "\<forall>v\<in>set us. \<exists>im. stage opn sav v = Inr im"
    and bad: "stage opn sav u = Inl e"
    by blast
  have "fst (generate_pdf opn sav enc1 images header_text w1) = Inl e"
    unfolding s
    using generate_fail [where opn = opn and sav = sav and us = us and u = u and e = e, OF ok bad]
    by simp
  moreover have "fst (generate_pdf opn sav enc2 images header_text w2) = Inl e"
    unfolding s
    using generate_fail [where opn = opn and sav = sav and us = us and u = u and e = e, OF ok bad]
    by simp
  ultimately show ?thesis by simp
qed

text \<open>An instance: two runs that differ in the encoder and in the temporary names
  return different documents with the same geometry.\<close>

theorem geometry_independent_of_encoding_witness:
  "fst (generate_pdf sample_open sample_save sample_enc [1, 2, 3] (unicode ''pic'') empty_world)
     \<noteq> fst (generate_pdf sample_open sample_save other_enc [1, 2, 3] (unicode ''pic'')
            \<lparr>fresh = 7, files = []\<rparr>)
   \<and> map_sum id geometry
       (fst (generate_pdf sample_open sample_save sample_enc [1, 2, 3] (unicode ''pic'') empty_world))
     = map_sum id geometry
         (fst (generate_pdf sample_open sample_save other_enc [1, 2, 3] (unicode ''pic'')
            \<lparr>fresh = 7, files = []\<rparr>))"
proof -
  have "fst (generate_pdf sample_open sample_save sample_enc [1, 2, 3] (unicode ''pic'') empty_world)
     \<noteq> fst (generate_pdf sample_open sample_save other_enc [1, 2, 3] (unicode ''pic'')
            \<lparr>fresh = 7, files = []\<rparr>)"
    by code_simp
  then show ?thesis
    using geometry_independent_of_encoding [of sample_open sample_save sample_enc "[1, 2, 3]"
        "unicode ''pic''" empty_world other_enc "\<lparr>fresh = 7, files = []\<rparr>"]
    by simp
qed

text \<open>
  Claim C10 says that on a page holding two image rows the cells of the second row, its
  data cell among them, span 110 to 200 mm. The code issues that data cell beside the
  second image, at 110 mm with a height of 90, but \<open>cell\<close> breaks the page first since
  200 exceeds the limit of 190. Evaluated on two readable uploads: the document is built
  and its first page holds two image rows, yet the cells on that page start at 10, 10, 20
  and 195 mm (the header cells, the data cell of the first row and the footer), none at
  110 mm; the data cell of the second row is the only thing on the next page, at 10 mm.
\<close>

theorem second_row_data_cell_elsewhere:
  "\<not> isl (fst (generate_pdf sample_open sample_save sample_enc [1, 2] (unicode ''pic'') empty_world))
   \<and> length (filter is_Rect (hd (pages (projr (fst
         (generate_pdf sample_open sample_save sample_enc [1, 2] (unicode ''pic'') empty_world)))))) = 2
   \<and> map oy (filter is_Cell (hd (pages (projr (fst
         (generate_pdf sample_open sample_save sample_enc [1, 2] (unicode ''pic'') empty_world))))))
       = [10, 10, 20, 195]
   \<and> tl (pages (projr (fst
         (generate_pdf sample_open sample_save sample_enc [1, 2] (unicode ''pic'') empty_world))))
       = [[Cell 90 10 190 90 [] 1 '''']]"
  by code_simp

end
